theory Spec2Isabelle
  imports Complex_Main "HOL-Library.Word"
begin

section \<open>Python strings and the string primitives the sources use\<close>

text \<open>
  A Python \<^verbatim>\<open>str\<close> is a sequence of Unicode code points, so \<^verbatim>\<open>len\<close>, slices and
  \<^verbatim>\<open>split\<close> count code points. A string is modelled as the list of its code points;
  \<open>asc\<close> embeds an ASCII literal.
\<close>

type_synonym ustr = "nat list"

definition asc :: "string \<Rightarrow> ustr" where
  "asc s = map of_char s"

text \<open>
  The code points for which \<^verbatim>\<open>str.isspace()\<close> holds. \<^verbatim>\<open>str.split()\<close>,
  \<^verbatim>\<open>str.strip()\<close> and the regular expression class \<^verbatim>\<open>\s\<close> all use this set.
\<close>

definition isspace :: "nat \<Rightarrow> bool" where
  "isspace c \<longleftrightarrow>
     (9 \<le> c \<and> c \<le> 13) \<or> (28 \<le> c \<and> c \<le> 32) \<or> c = 133 \<or> c = 160 \<or> c = 5760 \<or>
     (8192 \<le> c \<and> c \<le> 8202) \<or> c = 8232 \<or> c = 8233 \<or> c = 8239 \<or> c = 8287 \<or> c = 12288"

text \<open>\<^verbatim>\<open>s.strip(chars)\<close>: drop leading and trailing code points that satisfy \<open>P\<close>.\<close>

definition strip_where :: "(nat \<Rightarrow> bool) \<Rightarrow> ustr \<Rightarrow> ustr" where
  "strip_where P s = rev (dropWhile P (rev (dropWhile P s)))"

definition strip :: "ustr \<Rightarrow> ustr" where
  "strip s = strip_where isspace s"

definition strip_chars :: "ustr \<Rightarrow> ustr \<Rightarrow> ustr" where
  "strip_chars chars s = strip_where (\<lambda>c. c \<in> set chars) s"

text \<open>\<^verbatim>\<open>s.split()\<close>: the maximal runs of non-whitespace code points, in order.\<close>

fun split_from :: "ustr \<Rightarrow> ustr \<Rightarrow> ustr list" where
  "split_from cur [] = (if cur = [] then [] else [cur])"
| "split_from cur (c # cs) =
     (if isspace c then (if cur = [] then split_from [] cs else cur # split_from [] cs)
      else split_from (cur @ [c]) cs)"

definition split :: "ustr \<Rightarrow> ustr list" where
  "split s = split_from [] s"

text \<open>\<^verbatim>\<open>" ".join(xs)\<close>.\<close>

fun join :: "ustr list \<Rightarrow> ustr" where
  "join [] = []"
| "join [x] = x"
| "join (x # y # ys) = x @ 32 # join (y # ys)"

text \<open>
  A literal pattern matched at the head of a string, code point by code point under the
  relation \<open>eq\<close> (equality for \<^verbatim>\<open>in\<close> and \<^verbatim>\<open>str.replace\<close>, the case-insensitive
  relation of the regular expression engine for \<^verbatim>\<open>re.IGNORECASE\<close>).
\<close>

definition match_here :: "(nat \<Rightarrow> nat \<Rightarrow> bool) \<Rightarrow> ustr \<Rightarrow> ustr \<Rightarrow> bool" where
  "match_here eq pat s \<longleftrightarrow> length pat \<le> length s \<and> list_all2 eq pat (take (length pat) s)"

text \<open>\<^verbatim>\<open>pat in s\<close> and \<^verbatim>\<open>re.compile(re.escape(pat)).search(s)\<close>: a match at some position.\<close>

fun search :: "(nat \<Rightarrow> nat \<Rightarrow> bool) \<Rightarrow> ustr \<Rightarrow> ustr \<Rightarrow> bool" where
  "search eq pat [] = match_here eq pat []"
| "search eq pat (c # cs) = (match_here eq pat (c # cs) \<or> search eq pat cs)"

text \<open>
  \<^verbatim>\<open>s.replace(pat, "")\<close> and \<^verbatim>\<open>pattern.sub("", s)\<close>: scanning from the left, every
  non-overlapping match is removed. An empty pattern matches the empty string
  everywhere and removing it leaves the string as it is.
\<close>

function remove_all :: "(nat \<Rightarrow> nat \<Rightarrow> bool) \<Rightarrow> ustr \<Rightarrow> ustr \<Rightarrow> ustr" where
  "remove_all eq pat [] = []"
| "remove_all eq pat (c # cs) =
     (if pat \<noteq> [] \<and> match_here eq pat (c # cs)
      then remove_all eq pat (drop (length pat) (c # cs))
      else c # remove_all eq pat cs)"
  by pat_completeness auto
termination
  by (relation "measure (\<lambda>(eq, pat, s). length s)") auto

text \<open>No code point of the pattern matches a code point of \<open>r\<close>.\<close>

definition apart :: "(nat \<Rightarrow> nat \<Rightarrow> bool) \<Rightarrow> ustr \<Rightarrow> ustr \<Rightarrow> bool" where
  "apart eq pat r \<longleftrightarrow> list_all (\<lambda>p. list_all (\<lambda>c. \<not> eq p c) r) pat"

text \<open>\<^verbatim>\<open>re.sub(r"\s+", " ", s)\<close>: every run of whitespace becomes one space.\<close>

fun collapse_from :: "bool \<Rightarrow> ustr \<Rightarrow> ustr" where
  "collapse_from in_run [] = []"
| "collapse_from in_run (c # cs) =
     (if isspace c then (if in_run then collapse_from True cs else 32 # collapse_from True cs)
      else c # collapse_from False cs)"

definition collapse_ws :: "ustr \<Rightarrow> ustr" where
  "collapse_ws s = collapse_from False s"

text \<open>
  What the sources take from the Python runtime and cannot be written out here: the
  Unicode case tables and the regular expression engine. They are parameters of the
  model, so that every general theorem below holds for whatever these functions are.
  \<^item> \<open>lower\<close> is \<^verbatim>\<open>str.lower()\<close>;
  \<^item> \<open>re_ieq p c\<close> says that under \<^verbatim>\<open>re.IGNORECASE\<close> the literal pattern code point
    \<open>p\<close> matches the text code point \<open>c\<close>;
  \<^item> \<open>ratio a b\<close> is \<^verbatim>\<open>difflib.SequenceMatcher(None, a, b).ratio()\<close> (a float in the
    source, a rational here);
  \<^item> \<open>hallucination_re\<close> is \<^verbatim>\<open>_HALLUCINATION_RE.search(text)\<close> seen as a truth value.
\<close>

record pyenv =
  lower :: "ustr \<Rightarrow> ustr"
  re_ieq :: "nat \<Rightarrow> nat \<Rightarrow> bool"
  ratio :: "ustr \<Rightarrow> ustr \<Rightarrow> rat"
  hallucination_re :: "ustr \<Rightarrow> bool"


section \<open>difflib.SequenceMatcher\<close>

text \<open>
  The sources compare words with \<^verbatim>\<open>difflib.SequenceMatcher(None, a, b).ratio()\<close>. The
  functions below follow CPython's \<^verbatim>\<open>difflib.py\<close> for \<^verbatim>\<open>isjunk = None\<close> and the default
  \<^verbatim>\<open>autojunk = True\<close>: no element is junk, and an element of a sequence \<open>b\<close> of at least
  200 elements is popular when it occurs more than \<open>len(b) // 100 + 1\<close> times. They give
  the concrete similarity used in the worked examples.
\<close>

definition popular :: "ustr \<Rightarrow> nat \<Rightarrow> bool" where
  "popular b x \<longleftrightarrow> 200 \<le> length b \<and> length b div 100 + 1 < count_list b x"

text \<open>\<^verbatim>\<open>b2j.get(x, [])\<close>: the indices of \<open>x\<close> in \<open>b\<close>, increasing; none for a popular \<open>x\<close>.\<close>

definition b2j :: "ustr \<Rightarrow> nat \<Rightarrow> nat list" where
  "b2j b x = (if popular b x then [] else filter (\<lambda>j. b ! j = x) [0..<length b])"

text \<open>
  One pass of the inner loop of \<^verbatim>\<open>find_longest_match\<close> for the index \<open>j\<close>:
  \<^verbatim>\<open>k = newj2len[j] = j2len.get(j-1, 0) + 1\<close>, then the update of the best block. The
  dictionaries are association lists; a block is \<open>(besti, bestj, bestsize)\<close>.
\<close>

definition j2len_get :: "(nat \<times> nat) list \<Rightarrow> nat \<Rightarrow> nat" where
  "j2len_get j2len j = (if j = 0 then 0 else case map_of j2len (j - 1) of None \<Rightarrow> 0 | Some v \<Rightarrow> v)"

definition inner_step ::
  "nat \<Rightarrow> (nat \<times> nat) list \<Rightarrow> (nat \<times> nat) list \<times> (nat \<times> nat \<times> nat) \<Rightarrow> nat
     \<Rightarrow> (nat \<times> nat) list \<times> (nat \<times> nat \<times> nat)" where
  "inner_step i j2len st j =
     (let k = j2len_get j2len j + 1 in
      ((j, k) # fst st,
       if snd (snd (snd st)) < k then (i + 1 - k, j + 1 - k, k) else snd st))"

text \<open>
  One pass of the outer loop for the index \<open>i\<close>. The source skips the indices below
  \<open>blo\<close> and stops at the first one from \<open>bhi\<close> on; the indices are increasing, so
  these are the indices in \<open>[blo, bhi)\<close>.
\<close>

definition outer_step ::
  "ustr \<Rightarrow> ustr \<Rightarrow> nat \<Rightarrow> nat \<Rightarrow> (nat \<times> nat) list \<times> (nat \<times> nat \<times> nat) \<Rightarrow> nat
     \<Rightarrow> (nat \<times> nat) list \<times> (nat \<times> nat \<times> nat)" where
  "outer_step a b blo bhi st i =
     foldl (inner_step i (fst st)) ([], snd st)
       (filter (\<lambda>j. blo \<le> j \<and> j < bhi) (b2j b (a ! i)))"

definition longest_scan :: "ustr \<Rightarrow> ustr \<Rightarrow> nat \<Rightarrow> nat \<Rightarrow> nat \<Rightarrow> nat \<Rightarrow> nat \<times> nat \<times> nat" where
  "longest_scan a b alo ahi blo bhi =
     snd (foldl (outer_step a b blo bhi) ([], (alo, blo, 0)) [alo..<ahi])"

text \<open>
  The two loops that extend the best block by equal elements on each end. With no junk
  the two further loops of the source, which extend by junk elements, never run.
\<close>

function extend_left :: "ustr \<Rightarrow> ustr \<Rightarrow> nat \<Rightarrow> nat \<Rightarrow> nat \<times> nat \<times> nat \<Rightarrow> nat \<times> nat \<times> nat" where
  "extend_left a b alo blo (i, j, k) =
     (if alo < i \<and> blo < j \<and> a ! (i - 1) = b ! (j - 1)
      then extend_left a b alo blo (i - 1, j - 1, k + 1) else (i, j, k))"
  by pat_completeness auto
termination
  by (relation "measure (\<lambda>(a, b, alo, blo, i, j, k). i)") auto

function extend_right :: "ustr \<Rightarrow> ustr \<Rightarrow> nat \<Rightarrow> nat \<Rightarrow> nat \<times> nat \<times> nat \<Rightarrow> nat \<times> nat \<times> nat" where
  "extend_right a b ahi bhi (i, j, k) =
     (if i + k < ahi \<and> j + k < bhi \<and> a ! (i + k) = b ! (j + k)
      then extend_right a b ahi bhi (i, j, k + 1) else (i, j, k))"
  by pat_completeness auto
termination
  by (relation "measure (\<lambda>(a, b, ahi, bhi, i, j, k). ahi - (i + k))") auto

definition find_longest_match ::
  "ustr \<Rightarrow> ustr \<Rightarrow> nat \<Rightarrow> nat \<Rightarrow> nat \<Rightarrow> nat \<Rightarrow> nat \<times> nat \<times> nat" where
  "find_longest_match a b alo ahi blo bhi =
     extend_right a b ahi bhi (extend_left a b alo blo (longest_scan a b alo ahi blo bhi))"

text \<open>
  Two bounds for the termination proof below: the lengths in a row of \<open>j2len\<close> are at
  most \<open>n\<close>, and a block is either the empty block at \<open>alo\<close> or ends in \<open>(alo, n]\<close>.
\<close>

definition rows_le :: "nat \<Rightarrow> (nat \<times> nat) list \<Rightarrow> bool" where
  "rows_le n j2len \<longleftrightarrow> list_all (\<lambda>(j, v). v \<le> n) j2len"

definition block_in :: "nat \<Rightarrow> nat \<Rightarrow> nat \<times> nat \<times> nat \<Rightarrow> bool" where
  "block_in alo n blk \<longleftrightarrow>
     (case blk of (i, j, k) \<Rightarrow> (k = 0 \<and> i = alo) \<or> (0 < k \<and> alo < i + k \<and> i + k \<le> n))"

text \<open>
  \<^verbatim>\<open>sum(triple[-1] for triple in self.get_matching_blocks())\<close>. The source keeps a
  queue of regions still to be looked at and sorts and merges the blocks at the end;
  their sizes add up to the same number in any order, so the regions are visited here
  by recursion. (Termination is proved further down, from the bounds of the block that
  \<open>find_longest_match\<close> returns.)
\<close>

function (sequential) matches :: "ustr \<Rightarrow> ustr \<Rightarrow> nat \<Rightarrow> nat \<Rightarrow> nat \<Rightarrow> nat \<Rightarrow> nat" where
  "matches a b alo ahi blo bhi =
     (case find_longest_match a b alo ahi blo bhi of (i, j, k) \<Rightarrow>
        if k = 0 then 0
        else k + (if alo < i \<and> blo < j then matches a b alo i blo j else 0)
               + (if i + k < ahi \<and> j + k < bhi then matches a b (i + k) ahi (j + k) bhi else 0))"
  by pat_completeness auto

text \<open>\<^verbatim>\<open>_calculate_ratio(matches, len(a) + len(b))\<close>.\<close>

definition seq_ratio :: "ustr \<Rightarrow> ustr \<Rightarrow> rat" where
  "seq_ratio a b =
     (if length a + length b = 0 then 1
      else 2 * of_nat (matches a b 0 (length a) 0 (length b)) / of_nat (length a + length b))"

text \<open>
  The runtime used in the worked examples. Its case mapping is \<^verbatim>\<open>str.lower()\<close> on Basic
  Latin and on the Cyrillic block U+0400 to U+045F and leaves every other code point as
  it is; its case-insensitive relation compares the lowered code points; its similarity
  is the one of difflib above; its pattern search finds nothing. It stands for CPython
  only on texts in these two scripts that hold no hallucination pattern, which is all
  it is applied to.
\<close>

definition lower_cp :: "nat \<Rightarrow> nat" where
  "lower_cp c =
     (if 65 \<le> c \<and> c \<le> 90 then c + 32
      else if 1040 \<le> c \<and> c \<le> 1071 then c + 32
      else if 1024 \<le> c \<and> c \<le> 1039 then c + 80
      else c)"

definition py0 :: pyenv where
  "py0 = \<lparr>lower = map lower_cp, re_ieq = (\<lambda>p c. lower_cp p = lower_cp c),
           ratio = seq_ratio, hallucination_re = (\<lambda>t. False)\<rparr>"


section \<open>commands.py: VoiceCommands\<close>

text \<open>
  The calls that \<^verbatim>\<open>process\<close> makes on its two callbacks, in the order it makes them.
  The callbacks are taken to return normally; if one raises, the calls made are a prefix
  of this list.
\<close>

datatype call = Inject ustr | SendKey ustr

text \<open>
  The characters of \<^verbatim>\<open>word.strip(...)\<close>: full stop, comma, exclamation and question
  mark, semicolon, colon, hyphen, double and single quote, round and square brackets.
\<close>

definition punct :: ustr where
  "punct = [46, 44, 33, 63, 59, 58, 45, 34, 39, 40, 41, 91, 93]"

text \<open>
  \<^verbatim>\<open>_match_command\<close>. The command table is a \<^verbatim>\<open>dict\<close> from words to actions, kept as the
  list of its items in insertion order (the order of the loop over \<^verbatim>\<open>items()\<close>).
  \<open>fuzzy_step\<close> is one pass of that loop on \<open>(best_ratio, best_action)\<close>.
\<close>

type_synonym commands = "(ustr \<times> ustr) list"

definition fuzzy_step ::
  "pyenv \<Rightarrow> ustr \<Rightarrow> rat \<times> ustr option \<Rightarrow> ustr \<times> ustr \<Rightarrow> rat \<times> ustr option" where
  "fuzzy_step py word best item =
     (let r = ratio py (fst item) word in
      if 3 / 4 \<le> r \<and> fst best < r then (r, Some (snd item)) else best)"

definition match_command :: "pyenv \<Rightarrow> commands \<Rightarrow> ustr \<Rightarrow> ustr option" where
  "match_command py cmds word =
     (if word = [] then None
      else case map_of cmds word of
        Some action \<Rightarrow> Some action
      | None \<Rightarrow> snd (foldl (fuzzy_step py word) (0, None) cmds))"

text \<open>
  \<^verbatim>\<open>process\<close>. \<open>process_word\<close> is the body of the loop over the words, on the state
  \<open>(buffer, had_commands, calls)\<close>; an action counts when it is neither \<^verbatim>\<open>None\<close> nor
  the empty string (\<^verbatim>\<open>if action:\<close>). The result is \<open>(had_commands, calls)\<close>.
\<close>

definition process_word ::
  "pyenv \<Rightarrow> commands \<Rightarrow> ustr list \<times> bool \<times> call list \<Rightarrow> ustr \<Rightarrow> ustr list \<times> bool \<times> call list" where
  "process_word py cmds st word =
     (case st of (buffer, had_commands, calls) \<Rightarrow>
      let clean = lower py (strip_chars punct word) in
      case match_command py cmds clean of
        None \<Rightarrow> (buffer @ [word], had_commands, calls)
      | Some action \<Rightarrow>
          if action = [] then (buffer @ [word], had_commands, calls)
          else if action = asc ''backspace'' then
            (if buffer \<noteq> [] then (butlast buffer, True, calls)
             else (buffer, True, calls @ [SendKey (asc ''ctrl+BackSpace'')]))
          else
            (if buffer \<noteq> [] then ([], True, calls @ [Inject (join buffer), SendKey (drop 4 action)])
             else (buffer, True, calls @ [SendKey (drop 4 action)])))"

definition process :: "pyenv \<Rightarrow> commands \<Rightarrow> ustr \<Rightarrow> bool \<times> call list" where
  "process py cmds text =
     (let words = split text in
      if words = [] then (False, [])
      else case foldl (process_word py cmds) ([], False, []) words of
        (buffer, had_commands, calls) \<Rightarrow>
          (had_commands, if buffer \<noteq> [] then calls @ [Inject (join buffer)] else calls))"

text \<open>\<^verbatim>\<open>DEFAULT_VOICE_COMMANDS\<close> of config.py, in its order.\<close>

definition DEFAULT_VOICE_COMMANDS :: commands where
  "DEFAULT_VOICE_COMMANDS =
     [(asc ''enter'', asc ''key:Return''),
      ([1101, 1085, 1090, 1077, 1088], asc ''key:Return''),
      ([1074, 1074, 1086, 1076], asc ''key:Return''),
      (asc ''backspace'', asc ''backspace''),
      ([1073, 1101, 1082, 1089, 1087, 1077, 1081, 1089], asc ''backspace''),
      ([1073, 1077, 1082, 1089, 1087, 1077, 1081, 1089], asc ''backspace''),
      ([1085, 1072, 1079, 1072, 1076], asc ''backspace''),
      (asc ''tab'', asc ''key:Tab''),
      ([1090, 1072, 1073], asc ''key:Tab''),
      ([1090, 1072, 1073, 1091, 1083, 1103, 1094, 1080, 1103], asc ''key:Tab''),
      (asc ''escape'', asc ''key:Escape''),
      ([1101, 1089, 1082, 1077, 1081, 1087], asc ''key:Escape''),
      ([1089, 1090, 1086, 1087], asc ''key:Escape'')]"

text \<open>
  The processing as the specification words it: a token is a non-command token, a
  \<open>KeyPress\<close> or a \<open>Backspace\<close>; the tokens are scanned from the left with a buffer of
  non-command tokens, and the buffer that remains is flushed at the end.
\<close>

datatype action = KeyPress ustr | Backspace

fun spec_scan :: "(ustr \<Rightarrow> action option) \<Rightarrow> ustr list \<Rightarrow> ustr list \<Rightarrow> call list" where
  "spec_scan act [] buffer = (if buffer \<noteq> [] then [Inject (join buffer)] else [])"
| "spec_scan act (t # ts) buffer =
     (case act t of
        None \<Rightarrow> spec_scan act ts (buffer @ [t])
      | Some (KeyPress k) \<Rightarrow>
          (if buffer \<noteq> [] then [Inject (join buffer)] else []) @ SendKey k # spec_scan act ts []
      | Some Backspace \<Rightarrow>
          (if buffer \<noteq> [] then spec_scan act ts (butlast buffer)
           else SendKey (asc ''ctrl+BackSpace'') # spec_scan act ts []))"

text \<open>
  The action kind of a token under a command table: the token is lowercased and stripped
  of punctuation and looked up; the table's string \<^verbatim>\<open>backspace\<close> is \<open>Backspace\<close>, any
  other non-empty string \<^verbatim>\<open>key:<name>\<close> is \<open>KeyPress name\<close>.
\<close>

definition token_action :: "pyenv \<Rightarrow> commands \<Rightarrow> ustr \<Rightarrow> action option" where
  "token_action py cmds word =
     (case match_command py cmds (lower py (strip_chars punct word)) of
        None \<Rightarrow> None
      | Some a \<Rightarrow>
          if a = [] then None
          else if a = asc ''backspace'' then Some Backspace
          else Some (KeyPress (drop 4 a)))"


text \<open>
  "A token matches a command entry", as the specification words it: after lowercasing
  and stripping punctuation the token equals the key of some entry or has similarity at
  least 0.75 to it. \<open>is_token\<close>: a non-empty string with no whitespace in it.
\<close>

definition token_matches :: "pyenv \<Rightarrow> commands \<Rightarrow> ustr \<Rightarrow> bool" where
  "token_matches py cmds word =
     (let clean = lower py (strip_chars punct word)
      in list_ex (\<lambda>entry. fst entry = clean \<or> 3 / 4 \<le> ratio py (fst entry) clean) cmds)"

definition is_token :: "ustr \<Rightarrow> bool" where
  "is_token w \<longleftrightarrow> w \<noteq> [] \<and> list_all (\<lambda>c. \<not> isspace c) w"

section \<open>transcriber.py: the hallucination filter, WakeWordDetector, Transcriber\<close>

text \<open>
  \<^verbatim>\<open>_is_hallucination\<close>. Durations are floats in the source and exact rationals here.
  \<^verbatim>\<open>text.replace(" ", "")\<close> removes the code point 32 only.
\<close>

definition MAX_WORDS_PER_SEC :: rat where "MAX_WORDS_PER_SEC = 5"
definition MAX_CHARS_PER_SEC :: rat where "MAX_CHARS_PER_SEC = 25"

definition is_hallucination :: "pyenv \<Rightarrow> ustr \<Rightarrow> rat \<Rightarrow> bool" where
  "is_hallucination py text duration_s =
     (if hallucination_re py text then True
      else if 0 < duration_s then
        (let word_count = length (split text);
             char_count = length (remove_all (=) [32] text);
             max_words = max 2 (duration_s * MAX_WORDS_PER_SEC);
             max_chars = max 10 (duration_s * MAX_CHARS_PER_SEC)
         in if max_words < of_nat word_count then True
            else if max_chars < of_nat char_count then True
            else False)
      else False)"

text \<open>
  \<^verbatim>\<open>WakeWordDetector\<close>. The set of variants is kept as a list; it is only ever asked
  whether some member is similar to a word. The four suffixes are Cyrillic: U+0430,
  U+044F, U+0448 U+0430 and U+0436 U+0430.
\<close>

record wake_detector =
  wd_wake_word :: ustr
  wd_variants :: "ustr list"

definition endswith :: "ustr \<Rightarrow> ustr \<Rightarrow> bool" where
  "endswith word suffix \<longleftrightarrow>
     length suffix \<le> length word \<and> drop (length word - length suffix) word = suffix"

definition build_variants :: "ustr \<Rightarrow> ustr list" where
  "build_variants word =
     word # map (\<lambda>suffix. take (length word - length suffix) word)
              (filter (\<lambda>suffix. endswith word suffix \<and> length suffix + 2 < length word)
                 [[1072], [1103], [1096, 1072], [1078, 1072]])"

definition WakeWordDetector :: "pyenv \<Rightarrow> ustr \<Rightarrow> wake_detector" where
  "WakeWordDetector py word =
     (let w = strip (lower py word) in \<lparr>wd_wake_word = w, wd_variants = build_variants w\<rparr>)"

definition is_fuzzy_match :: "pyenv \<Rightarrow> wake_detector \<Rightarrow> ustr \<Rightarrow> bool" where
  "is_fuzzy_match py wd word \<longleftrightarrow>
     7 / 10 \<le> ratio py (wd_wake_word wd) word \<or>
     list_ex (\<lambda>variant. 7 / 10 \<le> ratio py variant word) (wd_variants wd)"

definition contains_wake_word :: "pyenv \<Rightarrow> wake_detector \<Rightarrow> ustr \<Rightarrow> bool" where
  "contains_wake_word py wd text =
     (let text_lower = strip (lower py text) in
      if search (=) (wd_wake_word wd) text_lower then True
      else list_ex (\<lambda>word. let w = strip_chars punct word in w \<noteq> [] \<and> is_fuzzy_match py wd w)
             (split text_lower))"

text \<open>The characters of the final \<^verbatim>\<open>result.strip(".,!?;:- ")\<close>.\<close>

definition trail :: ustr where
  "trail = [46, 44, 33, 63, 59, 58, 45, 32]"

definition strip_wake_word :: "pyenv \<Rightarrow> wake_detector \<Rightarrow> ustr \<Rightarrow> ustr" where
  "strip_wake_word py wd text =
     (if search (re_ieq py) (wd_wake_word wd) text then
        strip_chars trail (strip (collapse_ws (remove_all (re_ieq py) (wd_wake_word wd) text)))
      else
        strip_chars trail (strip (join
          (filter (\<lambda>w. let clean = lower py (strip_chars punct w)
                       in \<not> (clean \<noteq> [] \<and> is_fuzzy_match py wd clean))
             (split text)))))"

text \<open>
  \<^verbatim>\<open>Transcriber.transcribe\<close>. What the outside world decides is an argument: whether the
  WAV file exists, and what \<^verbatim>\<open>subprocess.run\<close> does, which either raises (the timeout,
  a missing executable) or completes with a return code and the two output streams.
  Every \<^verbatim>\<open>raise\<close> of the source is an \<open>Inl\<close> result.
\<close>

datatype exn = FileNotFoundError | RuntimeError int ustr | TimeoutExpired | StructError

record completed =
  returncode :: int
  stdout :: ustr
  stderr :: ustr

definition BLANK_AUDIO :: ustr where
  "BLANK_AUDIO = asc ''[BLANK_AUDIO]''"

definition transcribe :: "pyenv \<Rightarrow> bool \<Rightarrow> exn + completed \<Rightarrow> rat \<Rightarrow> exn + ustr" where
  "transcribe py isfile run duration_s =
     (if \<not> isfile then Inl FileNotFoundError
      else case run of
        Inl e \<Rightarrow> Inl e
      | Inr result \<Rightarrow>
          if returncode result \<noteq> 0
          then Inl (RuntimeError (returncode result) (take 200 (stderr result)))
          else
            let text = strip (stdout result);
                text = strip (remove_all (=) BLANK_AUDIO text)
            in if text \<noteq> [] \<and> is_hallucination py text duration_s then Inr [] else Inr text)"


section \<open>audio.py: the WAV writer and SimpleVAD\<close>

type_synonym bytes = "8 word list"

text \<open>
  \<^verbatim>\<open>struct.pack("<I", n)\<close> and \<^verbatim>\<open>struct.pack("<H", n)\<close>: the little-endian bytes of
  \<open>n\<close>, or \<^verbatim>\<open>struct.error\<close> when \<open>n\<close> is not in the range of the format.
\<close>

definition le_bytes :: "nat \<Rightarrow> int \<Rightarrow> bytes" where
  "le_bytes k n = map (\<lambda>i. word_of_int (n div 256 ^ i)) [0..<k]"

definition pack_I :: "int \<Rightarrow> exn + bytes" where
  "pack_I n = (if 0 \<le> n \<and> n < 2 ^ 32 then Inr (le_bytes 4 n) else Inl StructError)"

definition pack_H :: "int \<Rightarrow> exn + bytes" where
  "pack_H n = (if 0 \<le> n \<and> n < 2 ^ 16 then Inr (le_bytes 2 n) else Inl StructError)"

text \<open>
  The writes of \<^verbatim>\<open>_write_wav\<close> happen in order; the first \<^verbatim>\<open>struct.pack\<close> that raises
  ends the function with its error.
\<close>

fun write_all :: "(exn + bytes) list \<Rightarrow> exn + bytes" where
  "write_all [] = Inr []"
| "write_all (Inl e # ws) = Inl e"
| "write_all (Inr b # ws) = (case write_all ws of Inl e \<Rightarrow> Inl e | Inr bs \<Rightarrow> Inr (b @ bs))"

definition ascii_bytes :: "string \<Rightarrow> bytes" where
  "ascii_bytes s = map of_char s"

definition write_wav :: "bytes \<Rightarrow> int \<Rightarrow> int \<Rightarrow> int \<Rightarrow> exn + bytes" where
  "write_wav pcm_data sample_rate channels bits =
     (let data_size = int (length pcm_data);
          byte_rate = sample_rate * channels * bits div 8;
          block_align = channels * bits div 8
      in write_all
           [Inr (ascii_bytes ''RIFF''),
            pack_I (36 + data_size),
            Inr (ascii_bytes ''WAVE''),
            Inr (ascii_bytes ''fmt ''),
            pack_I 16,
            pack_H 1,
            pack_H channels,
            pack_I sample_rate,
            pack_I byte_rate,
            pack_H block_align,
            pack_H bits,
            Inr (ascii_bytes ''data''),
            pack_I data_size,
            Inr pcm_data])"

text \<open>\<^verbatim>\<open>_write_wav(path, pcm_data)\<close> with the defaults: 16 kHz, one channel, 16 bits.\<close>

definition write_wav_default :: "bytes \<Rightarrow> exn + bytes" where
  "write_wav_default pcm_data = write_wav pcm_data 16000 1 16"

text \<open>Reading a little-endian unsigned field of a file: \<open>len\<close> bytes from offset \<open>off\<close>.\<close>

definition le_value :: "bytes \<Rightarrow> nat" where
  "le_value bs = foldr (\<lambda>b acc. unat b + 256 * acc) bs 0"

definition field :: "nat \<Rightarrow> nat \<Rightarrow> bytes \<Rightarrow> nat" where
  "field off len file = le_value (take len (drop off file))"

text \<open>
  \<^verbatim>\<open>SimpleVAD\<close>. The object keeps the three configuration values it read when it was
  made, and its four variables. The two callbacks are recorded as events, in the order
  of the calls (both callbacks are set wherever the application makes a VAD).
\<close>

record vad =
  v_threshold :: int
  v_min_speech_ms :: int
  v_max_speech_s :: rat
  v_buffer :: bytes
  v_speech_buffer :: bytes
  v_in_speech :: bool
  v_silent_count :: nat

datatype vad_event = SpeechStart | SpeechEnd bytes

definition sample_rate :: nat where "sample_rate = 16000"

definition vad_reset :: "vad \<Rightarrow> vad" where
  "vad_reset v = v\<lparr>v_buffer := [], v_speech_buffer := [], v_in_speech := False, v_silent_count := 0\<rparr>"




text \<open>The duration that \<^verbatim>\<open>_emit_speech\<close> computes: \<^verbatim>\<open>len(pcm) * 1000 // (sample_rate * 2)\<close>.\<close>

definition duration_ms :: "bytes \<Rightarrow> int" where
  "duration_ms pcm = int (length pcm) * 1000 div (int sample_rate * 2)"

definition emit_speech :: "vad \<Rightarrow> vad \<times> vad_event list" where
  "emit_speech v =
     (let pcm = v_speech_buffer v;
          v' = v\<lparr>v_speech_buffer := [], v_in_speech := False, v_silent_count := 0\<rparr>
      in if v_min_speech_ms v \<le> duration_ms pcm then (v', [SpeechEnd pcm]) else (v', []))"












section \<open>config.py and app.py: the coordinator\<close>

datatype AppState = IDLE | RECORDING | PROCESSING | LISTENING | DICTATING

text \<open>The fields of \<^verbatim>\<open>Config\<close> that the modelled functions read.\<close>

record config =
  input_mode :: string
  output_mode :: string
  wake_word :: ustr
  silence_timeout :: rat
  vad_threshold :: int
  min_speech_ms :: int
  max_speech_s :: rat
  end_signal :: bool
  voice_commands :: bool
  notification :: bool

definition SimpleVAD :: "config \<Rightarrow> vad" where
  "SimpleVAD cfg =
     \<lparr>v_threshold = vad_threshold cfg, v_min_speech_ms = min_speech_ms cfg,
      v_max_speech_s = max_speech_s cfg, v_buffer = [], v_speech_buffer = [],
      v_in_speech = False, v_silent_count = 0\<rparr>"

text \<open>
  What the application does to the outside world, in order: the calls on the injector,
  the reactivation of the saved window, the tray's state and notifications, the sound
  player started for a start or end chime, the stop of the audio stream.
\<close>

datatype signal = StartSignal | EndSignal

datatype effect =
    Call call
  | RestoreWindow ustr
  | TraySetState AppState
  | TrayNotify ustr ustr
  | PlaySound signal
  | StreamStop

text \<open>
  The attributes of \<^verbatim>\<open>WhisperLinuxApp\<close>. An optional object whose content plays no role
  is a truth value (set or \<^verbatim>\<open>None\<close>); the silence timer, when set, holds its interval;
  the segment queue holds PCM segments and the \<^verbatim>\<open>None\<close> sentinel; \<open>commands\<close> is the
  table of the \<^verbatim>\<open>VoiceCommands\<close> object; \<open>effects\<close> is the log of what was done.
\<close>

record app =
  state :: AppState
  tray :: bool
  prev_window_id :: "ustr option"
  audio_stream :: bool
  vad :: "vad option"
  wake_detector :: "wake_detector option"
  silence_timer :: "rat option"
  segment_queue :: "bytes option list option"
  segment_worker :: bool
  accumulated_texts :: "ustr list"
  commands :: commands
  mute_until :: rat
  effects :: "effect list"

definition emit :: "effect list \<Rightarrow> app \<Rightarrow> app" where
  "emit es a = a\<lparr>effects := effects a @ es\<rparr>"

text \<open>
  \<^verbatim>\<open>_inject_text\<close>: \<open>inject_calls\<close> are the calls it makes on the injector, through
  \<^verbatim>\<open>VoiceCommands.process\<close> when voice commands are enabled, directly otherwise. The
  injector's methods are taken to return normally (they run subprocesses; an exception
  of theirs would end the calling handler early).
\<close>

definition inject_calls :: "pyenv \<Rightarrow> config \<Rightarrow> commands \<Rightarrow> ustr \<Rightarrow> call list" where
  "inject_calls py cfg cmds text =
     (if voice_commands cfg then snd (process py cmds text) else [Inject text])"

definition inject_text :: "pyenv \<Rightarrow> config \<Rightarrow> ustr \<Rightarrow> app \<Rightarrow> app" where
  "inject_text py cfg text a = emit (map Call (inject_calls py cfg (commands a) text)) a"

text \<open>\<^verbatim>\<open>_restore_active_window\<close>: nothing without a saved window.\<close>

definition restore_effects :: "app \<Rightarrow> effect list" where
  "restore_effects a =
     (case prev_window_id a of
        None \<Rightarrow> []
      | Some w \<Rightarrow> if w = [] then [] else [RestoreWindow w])"

definition restore_active_window :: "app \<Rightarrow> app" where
  "restore_active_window a = emit (restore_effects a) a"

definition flush_accumulated_text :: "pyenv \<Rightarrow> config \<Rightarrow> app \<Rightarrow> app" where
  "flush_accumulated_text py cfg a =
     (if accumulated_texts a \<noteq> [] then
        let all_text = join (accumulated_texts a) in
        (inject_text py cfg all_text (restore_active_window a))\<lparr>accumulated_texts := []\<rparr>
      else a)"

definition cancel_silence_timer :: "app \<Rightarrow> app" where
  "cancel_silence_timer a = (if silence_timer a \<noteq> None then a\<lparr>silence_timer := None\<rparr> else a)"

definition reset_silence_timer :: "config \<Rightarrow> app \<Rightarrow> app" where
  "reset_silence_timer cfg a = (cancel_silence_timer a)\<lparr>silence_timer := Some (silence_timeout cfg)\<rparr>"

definition set_state :: "AppState \<Rightarrow> app \<Rightarrow> app" where
  "set_state st a = (let a' = a\<lparr>state := st\<rparr> in if tray a' then emit [TraySetState st] a' else a')"

text \<open>
  \<^verbatim>\<open>_marshal_set_state\<close> and \<^verbatim>\<open>_marshal_notify\<close> run their action at once, or queue it
  on the Qt loop when there is one; the model runs it at once.
\<close>

definition marshal_set_state :: "AppState \<Rightarrow> app \<Rightarrow> app" where
  "marshal_set_state st a = set_state st a"

definition marshal_notify :: "ustr \<Rightarrow> ustr \<Rightarrow> app \<Rightarrow> app" where
  "marshal_notify title message a = (if \<not> tray a then a else emit [TrayNotify title message] a)"

text \<open>
  \<^verbatim>\<open>_play_start_signal\<close> and \<^verbatim>\<open>_play_end_signal\<close>; \<open>now\<close> is \<^verbatim>\<open>time.time()\<close>, in
  seconds. \<open>PlaySound\<close> stands for the call of \<^verbatim>\<open>_play_sound\<close>, which starts the first
  player it finds for the first sound file that exists.
\<close>

definition play_start_signal :: "config \<Rightarrow> rat \<Rightarrow> app \<Rightarrow> app" where
  "play_start_signal cfg now a =
     (if \<not> end_signal cfg then a
      else emit [PlaySound StartSignal]
             (a\<lparr>mute_until := now + 6 / 10, vad := map_option vad_reset (vad a)\<rparr>))"

definition play_end_signal :: "config \<Rightarrow> rat \<Rightarrow> app \<Rightarrow> app" where
  "play_end_signal cfg now a =
     (if \<not> end_signal cfg then a
      else emit [PlaySound EndSignal]
             (a\<lparr>mute_until := now + 6 / 10, vad := map_option vad_reset (vad a)\<rparr>))"





text \<open>
  \<^verbatim>\<open>_process_speech_segment\<close> from the point where \<^verbatim>\<open>transcribe\<close> has returned \<open>text\<close>
  (lines 264 to 307): the arbitration of a worker result. \<open>wake_hit\<close> is the test of
  line 269: there is a detector and it finds the wake word in the text.
\<close>

definition preview :: "ustr \<Rightarrow> ustr" where
  "preview text = take 80 text @ (if 80 < length text then asc ''...'' else [])"

definition wake_hit :: "pyenv \<Rightarrow> ustr \<Rightarrow> app \<Rightarrow> wake_detector option" where
  "wake_hit py text a =
     (case wake_detector a of
        None \<Rightarrow> None
      | Some wd \<Rightarrow> if contains_wake_word py wd text then Some wd else None)"

definition process_transcribed :: "pyenv \<Rightarrow> config \<Rightarrow> rat \<Rightarrow> ustr \<Rightarrow> app \<Rightarrow> app" where
  "process_transcribed py cfg now text a =
     (if text = [] then a
      else case wake_hit py text a of
        Some wd \<Rightarrow>
          (let remaining = strip_wake_word py wd text in
           if state a = LISTENING then
             marshal_notify (asc ''whisper.linux'') (asc ''Dictation started'')
               (play_start_signal cfg now
                 (marshal_set_state DICTATING
                   ((cancel_silence_timer a)\<lparr>accumulated_texts := [], state := DICTATING\<rparr>)))
           else if state a = DICTATING then
             (let a1 = cancel_silence_timer a;
                  a2 = (if remaining \<noteq> [] then
                          (if output_mode cfg = ''stream''
                           then inject_text py cfg remaining (restore_active_window a1)
                           else a1\<lparr>accumulated_texts := accumulated_texts a1 @ [remaining]\<rparr>)
                        else a1);
                  a3 = flush_accumulated_text py cfg a2
              in marshal_notify (asc ''whisper.linux'') (asc ''Dictation paused'')
                   (marshal_set_state LISTENING (a3\<lparr>state := LISTENING\<rparr>)))
           else a)
      | None \<Rightarrow>
          if state a = DICTATING then
            (let a1 = (if output_mode cfg = ''stream''
                       then inject_text py cfg text (restore_active_window a)
                       else a\<lparr>accumulated_texts := accumulated_texts a @ [text]\<rparr>);
                 a2 = (if input_mode cfg = ''listen'' then reset_silence_timer cfg a1 else a1)
             in if notification cfg then marshal_notify (asc ''whisper.linux'') (preview text) a2 else a2)
          else a)"

text \<open>
  \<^verbatim>\<open>_stop_listening\<close>, cut at the one point where the coordinator waits for another
  thread: \<^verbatim>\<open>self._segment_worker.join(timeout=5)\<close>. The first part is lines 158 to 166
  (and the test of line 167), the second part lines 169 to 171. While the coordinator
  waits in \<^verbatim>\<open>join\<close>, the worker thread goes on with the segment it has in hand.
\<close>

definition stop_listening_until_join :: "pyenv \<Rightarrow> config \<Rightarrow> app \<Rightarrow> app" where
  "stop_listening_until_join py cfg a =
     (let a1 = flush_accumulated_text py cfg (cancel_silence_timer a);
          a2 = (if audio_stream a1 then emit [StreamStop] (a1\<lparr>audio_stream := False\<rparr>) else a1);
          a3 = a2\<lparr>vad := None, wake_detector := None\<rparr>
      in case segment_queue a3 of
           None \<Rightarrow> a3
         | Some q \<Rightarrow> a3\<lparr>segment_queue := Some (q @ [None])\<rparr>)"

definition stop_listening_after_join :: "app \<Rightarrow> app" where
  "stop_listening_after_join a =
     set_state IDLE (a\<lparr>segment_worker := False, segment_queue := None\<rparr>)"

text \<open>\<^verbatim>\<open>_stop_listening\<close> when nothing else runs during the \<^verbatim>\<open>join\<close>.\<close>

definition stop_listening :: "pyenv \<Rightarrow> config \<Rightarrow> app \<Rightarrow> app" where
  "stop_listening py cfg a = stop_listening_after_join (stop_listening_until_join py cfg a)"

text \<open>\<^verbatim>\<open>_stop_hotkey_stream\<close>, likewise with nothing else running during its \<^verbatim>\<open>join\<close>.\<close>

definition stop_hotkey_stream :: "pyenv \<Rightarrow> config \<Rightarrow> rat \<Rightarrow> app \<Rightarrow> app" where
  "stop_hotkey_stream py cfg now a =
     (let a1 = flush_accumulated_text py cfg (cancel_silence_timer a);
          a2 = (if audio_stream a1 then emit [StreamStop] (a1\<lparr>audio_stream := False\<rparr>) else a1);
          a3 = a2\<lparr>vad := None\<rparr>;
          a4 = (case segment_queue a3 of
                  None \<Rightarrow> a3
                | Some q \<Rightarrow> a3\<lparr>segment_queue := Some (q @ [None])\<rparr>)
      in play_end_signal cfg now
           (set_state IDLE (a4\<lparr>segment_worker := False, segment_queue := None\<rparr>)))"


text \<open>
  \<^verbatim>\<open>_start_listening\<close>. The outside world is an argument again: \<open>xdo\<close> is what
  \<^verbatim>\<open>xdotool getactivewindow\<close> does (\<open>None\<close> when running it raises, else its return code
  and output), \<open>failure\<close> is the message of the exception of \<^verbatim>\<open>AudioStream.start\<close>, if
  it raises.
\<close>

definition save_active_window :: "(int \<times> ustr) option \<Rightarrow> app \<Rightarrow> app" where
  "save_active_window xdo a =
     (case xdo of
        None \<Rightarrow> a\<lparr>prev_window_id := None\<rparr>
      | Some (rc, out) \<Rightarrow>
          if rc = 0 \<and> strip out \<noteq> [] then a\<lparr>prev_window_id := Some (strip out)\<rparr> else a)"

definition start_listening ::
  "pyenv \<Rightarrow> config \<Rightarrow> (int \<times> ustr) option \<Rightarrow> ustr option \<Rightarrow> app \<Rightarrow> app" where
  "start_listening py cfg xdo failure a =
     (let a1 = (save_active_window xdo a)
                 \<lparr>wake_detector := Some (WakeWordDetector py (wake_word cfg)),
                  vad := Some (SimpleVAD cfg), audio_stream := True,
                  segment_queue := Some [], segment_worker := True\<rparr>
      in case failure of
           None \<Rightarrow> set_state LISTENING a1
         | Some e \<Rightarrow>
             (let a2 = (if tray a1 then emit [TrayNotify (asc ''Error'') (asc ''Stream failed: '' @ e)] a1
                        else a1)
              in a2\<lparr>segment_worker := False, segment_queue := None\<rparr>))"

text \<open>The application as \<^verbatim>\<open>__init__\<close> leaves it, with or without a tray.\<close>

definition app_init :: "bool \<Rightarrow> app" where
  "app_init with_tray =
     \<lparr>state = IDLE, tray = with_tray, prev_window_id = None, audio_stream = False, vad = None,
      wake_detector = None, silence_timer = None, segment_queue = None, segment_worker = False,
      accumulated_texts = [], commands = DEFAULT_VOICE_COMMANDS, mute_until = 0, effects = []\<rparr>"

text \<open>
  The calls on the injector among some effects, and the effects that a handler added
  to the log when it took the application from \<open>a\<close> to \<open>a'\<close>.
\<close>

fun calls_of :: "effect list \<Rightarrow> call list" where
  "calls_of [] = []"
| "calls_of (Call c # es) = c # calls_of es"
| "calls_of (e # es) = calls_of es"

definition new_effects :: "app \<Rightarrow> app \<Rightarrow> effect list" where
  "new_effects a a' = drop (length (effects a)) (effects a')"

text \<open>
  The defaults of the \<^verbatim>\<open>Config\<close> dataclass (the default wake word is "marfusha" in
  Cyrillic), and the configuration of the specification's listen scenarios: the
  defaults with listen input, the given output mode and the wake word "dunyasha".
\<close>

definition default_config :: config where
  "default_config =
     \<lparr>input_mode = ''hotkey'', output_mode = ''batch'',
      wake_word = [1084, 1072, 1088, 1092, 1091, 1096, 1072],
      silence_timeout = 3, vad_threshold = 300, min_speech_ms = 500, max_speech_s = 30,
      end_signal = True, voice_commands = True, notification = True\<rparr>"

definition listen_config :: "string \<Rightarrow> config" where
  "listen_config out =
     default_config\<lparr>input_mode := ''listen'', output_mode := out,
                    wake_word := [1076, 1091, 1085, 1103, 1096, 1072]\<rparr>"

text \<open>
  The application after a toggle from \<^verbatim>\<open>IDLE\<close> in listen mode: the active window was
  saved (\<^verbatim>\<open>xdotool\<close> printed a window id) and the audio stream started.
\<close>

definition listening_session :: "string \<Rightarrow> app" where
  "listening_session out =
     start_listening py0 (listen_config out) (Some (0, asc ''4194311'')) None (app_init True)"

text \<open>
  The listen+batch session after the wake word was heard at time 100 (state DICTATING),
  and the same after one more worker result \<open>text\<close> at time 103.
\<close>

definition after_wake :: app where
  "after_wake =
     process_transcribed py0 (listen_config ''batch'') 100 [1076, 1091, 1085, 1103, 1096, 1072]
       (listening_session ''batch'')"

definition dictated :: "ustr \<Rightarrow> app" where
  "dictated text = process_transcribed py0 (listen_config ''batch'') 103 text after_wake"

section \<open>The texts of the specification's scenarios\<close>


definition odin_dva_tri_chetyre_pyat :: ustr where
  "odin_dva_tri_chetyre_pyat =
     [1054, 1076, 1080, 1085, 32, 1076, 1074, 1072, 32, 1090, 1088, 1080, 32,
      1095, 1077, 1090, 1099, 1088, 1077, 32, 1087, 1103, 1090, 1100]"

definition dunyasha :: ustr where
  "dunyasha = [1076, 1091, 1085, 1103, 1096, 1072]"

definition pervaya_chast :: ustr where
  "pervaya_chast = [1087, 1077, 1088, 1074, 1072, 1103, 32, 1095, 1072, 1089, 1090, 1100]"

definition vtoraya_chast :: ustr where
  "vtoraya_chast = [1074, 1090, 1086, 1088, 1072, 1103, 32, 1095, 1072, 1089, 1090, 1100]"

definition vtoraya_chast_dunyasha :: ustr where
  "vtoraya_chast_dunyasha = vtoraya_chast @ 32 # dunyasha"

text \<open>
  The detector for the wake word "dunyasha": besides the word its variants are "dunyash"
  and "dunya".
\<close>

definition dunyasha_detector :: wake_detector where
  "dunyasha_detector =
     \<lparr>wd_wake_word = dunyasha,
      wd_variants = [dunyasha, [1076, 1091, 1085, 1103, 1096], [1076, 1091, 1085, 1103]]\<rparr>"

definition dunyasha_privet :: ustr where
  "dunyasha_privet = dunyasha @ [32, 1087, 1088, 1080, 1074, 1077, 1090]"


section \<open>Termination of the two loops defined with \<^theory_text>\<open>function\<close>\<close>

subsection \<open>difflib: the block returned by \<open>find_longest_match\<close> lies in its region\<close>

lemma j2len_get_le: "rows_le n j2len \<Longrightarrow> j2len_get j2len j \<le> n"
  by (auto simp: j2len_get_def rows_le_def list_all_iff split: option.splits dest!: map_of_SomeD)

lemma inner_step_inv:
  assumes "rows_le n j2len" "rows_le (Suc n) (fst st)" "block_in alo (Suc n) (snd st)" "alo \<le> n"
  shows "rows_le (Suc n) (fst (inner_step n j2len st j)) \<and>
         block_in alo (Suc n) (snd (inner_step n j2len st j))"
proof -
  have k: "j2len_get j2len j + 1 \<le> Suc n"
    using j2len_get_le [OF assms(1), of j] by simp
  show ?thesis
    using assms(2-4) k
    by (auto simp: inner_step_def Let_def rows_le_def list_all_iff block_in_def split: prod.splits)
qed

lemma inner_fold_inv:
  assumes "rows_le n j2len" "alo \<le> n"
  shows "rows_le (Suc n) (fst st) \<Longrightarrow> block_in alo (Suc n) (snd st) \<Longrightarrow>
         rows_le (Suc n) (fst (foldl (inner_step n j2len) st js)) \<and>
         block_in alo (Suc n) (snd (foldl (inner_step n j2len) st js))"
proof (induction js arbitrary: st)
  case Nil
  then show ?case by simp
next
  case (Cons j js)
  from inner_step_inv [OF assms(1) Cons.prems(1,2) assms(2), of j]
  show ?case using Cons.IH by simp
qed

lemma block_in_mono: "block_in alo n blk \<Longrightarrow> n \<le> m \<Longrightarrow> block_in alo m blk"
  by (auto simp: block_in_def split: prod.splits)

lemma outer_step_inv:
  assumes "rows_le n (fst st)" "block_in alo n (snd st)" "alo \<le> n"
  shows "rows_le (Suc n) (fst (outer_step a b blo bhi st n)) \<and>
         block_in alo (Suc n) (snd (outer_step a b blo bhi st n))"
  unfolding outer_step_def
  by (rule inner_fold_inv [OF assms(1,3)])
     (use assms(2) in \<open>auto simp: rows_le_def list_all_iff intro: block_in_mono\<close>)

lemma scan_inv:
  "alo \<le> n \<Longrightarrow>
   rows_le n (fst (foldl (outer_step a b blo bhi) ([], (alo, blo, 0)) [alo..<n])) \<and>
   block_in alo n (snd (foldl (outer_step a b blo bhi) ([], (alo, blo, 0)) [alo..<n]))"
proof (induction n)
  case 0
  then show ?case by (simp add: rows_le_def list_all_iff block_in_def)
next
  case (Suc n)
  show ?case
  proof (cases "alo \<le> n")
    case True
    with Suc.IH outer_step_inv [of n _ alo a b blo bhi] show ?thesis by simp
  next
    case False
    with Suc.prems have "alo = Suc n" by simp
    then show ?thesis by (simp add: rows_le_def list_all_iff block_in_def)
  qed
qed

lemma longest_scan_block: "block_in alo ahi (longest_scan a b alo ahi blo bhi)"
proof (cases "alo \<le> ahi")
  case True
  then show ?thesis unfolding longest_scan_def using scan_inv by blast
next
  case False
  then show ?thesis by (simp add: longest_scan_def block_in_def)
qed

declare extend_left.simps [simp del] extend_right.simps [simp del]

lemma extend_left_block:
  "block_in alo ahi blk \<Longrightarrow> block_in alo ahi (extend_left a b alo blo blk)"
proof (induction a b alo blo blk rule: extend_left.induct)
  case (1 a b alo blo i j k)
  show ?case
  proof (cases "alo < i \<and> blo < j \<and> a ! (i - 1) = b ! (j - 1)")
    case True
    with "1.prems" have "block_in alo ahi (i - 1, j - 1, k + 1)"
      by (auto simp: block_in_def)
    with True "1.IH" show ?thesis by (subst extend_left.simps) simp
  next
    case False
    with "1.prems" show ?thesis by (subst extend_left.simps) auto
  qed
qed

lemma extend_right_block:
  "block_in alo ahi blk \<Longrightarrow> block_in alo ahi (extend_right a b ahi bhi blk)"
proof (induction a b ahi bhi blk rule: extend_right.induct)
  case (1 a b ahi bhi i j k)
  show ?case
  proof (cases "i + k < ahi \<and> j + k < bhi \<and> a ! (i + k) = b ! (j + k)")
    case True
    with "1.prems" have "block_in alo ahi (i, j, k + 1)"
      by (auto simp: block_in_def)
    with True "1.IH" show ?thesis by (subst extend_right.simps) simp
  next
    case False
    with "1.prems" show ?thesis by (subst extend_right.simps) auto
  qed
qed

lemma find_longest_match_block: "block_in alo ahi (find_longest_match a b alo ahi blo bhi)"
  unfolding find_longest_match_def
  by (intro extend_right_block extend_left_block longest_scan_block)

termination matches
proof (relation "measure (\<lambda>(a, b, alo, ahi, blo, bhi). ahi - alo)")
  show "wf (measure (\<lambda>(a, b, alo, ahi, blo, bhi). ahi - alo))" by simp
next
  fix a b :: ustr and alo ahi blo bhi i y j k
  assume "(i, y) = find_longest_match a b alo ahi blo bhi" "(j, k) = y"
    "k \<noteq> 0" "alo < i \<and> blo < j"
  then show "((a, b, alo, i, blo, j), (a, b, alo, ahi, blo, bhi))
          \<in> measure (\<lambda>(a, b, alo, ahi, blo, bhi). ahi - alo)"
    using find_longest_match_block [of alo ahi a b blo bhi]
    by (auto simp: block_in_def)
next
  fix a b :: ustr and alo ahi blo bhi i y j k
  assume "(i, y) = find_longest_match a b alo ahi blo bhi" "(j, k) = y"
    "k \<noteq> 0" "i + k < ahi \<and> j + k < bhi"
  then show "((a, b, i + k, ahi, j + k, bhi), (a, b, alo, ahi, blo, bhi))
          \<in> measure (\<lambda>(a, b, alo, ahi, blo, bhi). ahi - alo)"
    using find_longest_match_block [of alo ahi a b blo bhi]
    by (auto simp: block_in_def)
qed

declare matches.simps [simp del]


subsection \<open>SimpleVAD.feed: every pass takes one frame off the buffer\<close>

lemma emit_speech_buffer: "v_buffer (fst (emit_speech v)) = v_buffer v"
  by (simp add: emit_speech_def Let_def)




section \<open>VoiceCommands.process\<close>

lemma process_word_none:
  "token_action py cmds w = None \<Longrightarrow>
   process_word py cmds (buffer, had, calls) w = (buffer @ [w], had, calls)"
  by (auto simp: process_word_def token_action_def Let_def split: option.splits if_splits)

lemma process_word_key:
  "token_action py cmds w = Some (KeyPress k) \<Longrightarrow>
   process_word py cmds (buffer, had, calls) w =
     ([], True, calls @ (if buffer \<noteq> [] then [Inject (join buffer)] else []) @ [SendKey k])"
  by (auto simp: process_word_def token_action_def Let_def split: option.splits if_splits)

lemma process_word_backspace:
  "token_action py cmds w = Some Backspace \<Longrightarrow>
   process_word py cmds (buffer, had, calls) w =
     (if buffer \<noteq> [] then (butlast buffer, True, calls)
      else ([], True, calls @ [SendKey (asc ''ctrl+BackSpace'')]))"
  by (auto simp: process_word_def token_action_def Let_def split: option.splits if_splits)

lemma process_fold:
  "(case foldl (process_word py cmds) (buffer, had, calls) ws of
      (b', h', c') \<Rightarrow> (if b' \<noteq> [] then c' @ [Inject (join b')] else c'))
   = calls @ spec_scan (token_action py cmds) ws buffer"
proof (induction ws arbitrary: buffer had calls)
  case Nil
  then show ?case by simp
next
  case (Cons w ws)
  show ?case
  proof (cases "token_action py cmds w")
    case None
    then show ?thesis by (simp add: process_word_none Cons.IH)
  next
    case (Some act)
    then show ?thesis
      by (cases act) (simp_all add: process_word_key process_word_backspace Cons.IH)
  qed
qed

lemma process_calls: "snd (process py cmds text) = spec_scan (token_action py cmds) (split text) []"
  using process_fold [of py cmds "[]" False "[]" "split text"]
  by (auto simp: process_def Let_def split: prod.splits)

text \<open>The flag returned by \<open>process\<close>: some token was a command.\<close>

lemma process_fold_flag:
  "fst (snd (foldl (process_word py cmds) (buffer, had, calls) ws))
   = (had \<or> list_ex (\<lambda>w. token_action py cmds w \<noteq> None) ws)"
proof (induction ws arbitrary: buffer had calls)
  case Nil
  then show ?case by simp
next
  case (Cons w ws)
  show ?case
  proof (cases "token_action py cmds w")
    case None
    then show ?thesis by (simp add: process_word_none Cons.IH)
  next
    case (Some act)
    then show ?thesis
      by (cases act) (simp_all add: process_word_key process_word_backspace Cons.IH)
  qed
qed

lemma process_flag: "fst (process py cmds text) = list_ex (\<lambda>w. token_action py cmds w \<noteq> None) (split text)"
  using process_fold_flag [of py cmds "[]" False "[]" "split text"]
  by (auto simp: process_def Let_def split: prod.splits)

text \<open>A token that matches no entry is not a command.\<close>

lemma fuzzy_fold_none:
  "list_all (\<lambda>entry. \<not> 3 / 4 \<le> ratio py (fst entry) word) cmds \<Longrightarrow>
   foldl (fuzzy_step py word) best cmds = best"
  by (induction cmds arbitrary: best) (simp_all add: fuzzy_step_def Let_def)

lemma no_match_no_action:
  assumes "\<not> token_matches py cmds w"
  shows "token_action py cmds w = None"
proof -
  define clean where "clean = lower py (strip_chars punct w)"
  from assms have *: "list_all (\<lambda>entry. fst entry \<noteq> clean \<and> \<not> 3 / 4 \<le> ratio py (fst entry) clean) cmds"
    by (simp add: token_matches_def clean_def Let_def list_all_iff list_ex_iff)
  then have "clean \<notin> fst ` set cmds"
    by (auto simp: list_all_iff)
  then have m: "map_of cmds clean = None"
    by (simp add: map_of_eq_None_iff)
  from * have "list_all (\<lambda>entry. \<not> 3 / 4 \<le> ratio py (fst entry) clean) cmds"
    by (simp add: list_all_iff)
  then have "foldl (fuzzy_step py clean) (0, None) cmds = (0, None)"
    by (rule fuzzy_fold_none)
  with m have "match_command py cmds clean = None"
    by (simp add: match_command_def)
  then show ?thesis
    by (simp add: token_action_def clean_def)
qed

text \<open>The tokens of the examples under the default table.\<close>

lemma nomatch_hello: "\<not> token_matches py0 DEFAULT_VOICE_COMMANDS (asc ''hello'')"
  by code_simp

lemma nomatch_world: "\<not> token_matches py0 DEFAULT_VOICE_COMMANDS (asc ''world'')"
  by code_simp

lemma nomatch_more: "\<not> token_matches py0 DEFAULT_VOICE_COMMANDS (asc ''more'')"
  by code_simp

lemma token_hello: "token_action py0 DEFAULT_VOICE_COMMANDS (asc ''hello'') = None"
  by (rule no_match_no_action [OF nomatch_hello])

lemma token_world: "token_action py0 DEFAULT_VOICE_COMMANDS (asc ''world'') = None"
  by (rule no_match_no_action [OF nomatch_world])

lemma token_more: "token_action py0 DEFAULT_VOICE_COMMANDS (asc ''more'') = None"
  by (rule no_match_no_action [OF nomatch_more])

lemma token_enter:
  "token_action py0 DEFAULT_VOICE_COMMANDS (asc ''enter'') = Some (KeyPress (asc ''Return''))"
  by code_simp

lemma token_backspace: "token_action py0 DEFAULT_VOICE_COMMANDS (asc ''backspace'') = Some Backspace"
  by code_simp

lemma split_hello_enter_world:
  "split (asc ''hello enter world'') = [asc ''hello'', asc ''enter'', asc ''world'']"
  by (simp add: asc_def split_def isspace_def)

lemma split_hello_world_backspace_more:
  "split (asc ''hello world backspace more'') =
     [asc ''hello'', asc ''world'', asc ''backspace'', asc ''more'']"
  by (simp add: asc_def split_def isspace_def)

lemma join_asc2: "join [asc s, asc t] = asc (s @ '' '' @ t)"
  by (simp add: asc_def)

text \<open>
  C5. \<open>process\<close> makes the calls of a left-to-right scan of the tokens with a buffer: a
  non-command token is appended to the buffer; a KeyPress injects the joined buffer if
  it is not empty and clears it, then sends the key; a Backspace drops the last token of
  a non-empty buffer without injecting, and sends ctrl+BackSpace when the buffer is
  empty; the buffer that remains is injected at the end. The flag returned says whether
  a token was a command. With the default table, "hello enter world" gives
  inject("hello"), key("Return"), inject("world") in this order, and
  "hello world backspace more" gives the single call inject("hello more").
\<close>

theorem process_scans_tokens:
  "snd (process py cmds text) = spec_scan (token_action py cmds) (split text) []
   \<and> fst (process py cmds text) = list_ex (\<lambda>w. token_action py cmds w \<noteq> None) (split text)
   \<and> snd (process py0 DEFAULT_VOICE_COMMANDS (asc ''hello enter world''))
       = [Inject (asc ''hello''), SendKey (asc ''Return''), Inject (asc ''world'')]
   \<and> snd (process py0 DEFAULT_VOICE_COMMANDS (asc ''hello world backspace more''))
       = [Inject (asc ''hello more'')]"
proof (intro conjI)
  show "snd (process py cmds text) = spec_scan (token_action py cmds) (split text) []"
    by (rule process_calls)
  show "fst (process py cmds text) = list_ex (\<lambda>w. token_action py cmds w \<noteq> None) (split text)"
    by (rule process_flag)
  have "asc ''hello'' \<noteq> []" by (simp add: asc_def)
  then show "snd (process py0 DEFAULT_VOICE_COMMANDS (asc ''hello enter world''))
       = [Inject (asc ''hello''), SendKey (asc ''Return''), Inject (asc ''world'')]"
    by (simp add: process_calls split_hello_enter_world token_hello token_enter token_world)
  have "join [asc ''hello'', asc ''more''] = asc ''hello more''"
    by (simp add: asc_def)
  then show "snd (process py0 DEFAULT_VOICE_COMMANDS (asc ''hello world backspace more''))
       = [Inject (asc ''hello more'')]"
    by (simp add: process_calls split_hello_world_backspace_more
        token_hello token_world token_backspace token_more)
qed



subsection \<open>Texts without commands\<close>

lemma spec_scan_no_commands:
  "list_all (\<lambda>w. act w = None) ws \<Longrightarrow>
   spec_scan act ws buffer = (if buffer @ ws = [] then [] else [Inject (join (buffer @ ws))])"
  by (induction ws arbitrary: buffer) simp_all

lemma split_from_token:
  "list_all (\<lambda>c. \<not> isspace c) w \<Longrightarrow> split_from cur (w @ rest) = split_from (cur @ w) rest"
  by (induction w arbitrary: cur) simp_all

lemma split_join_tokens: "list_all is_token ws \<Longrightarrow> split (join ws) = ws"
proof (induction ws rule: join.induct)
  case 1
  then show ?case by (simp add: split_def)
next
  case (2 x)
  then show ?case
    using split_from_token [of x "[]" "[]"] by (simp add: split_def is_token_def)
next
  case (3 x y ys)
  from "3.prems" have x: "list_all (\<lambda>c. \<not> isspace c) x" "x \<noteq> []"
    by (simp_all add: is_token_def)
  have "split (join (x # y # ys)) = split_from [] (x @ 32 # join (y # ys))"
    by (simp add: split_def)
  also have "\<dots> = split_from x (32 # join (y # ys))"
    using split_from_token [OF x(1), of "[]"] by simp
  also have "\<dots> = x # split (join (y # ys))"
    using x(2) by (simp add: isspace_def split_def)
  finally show ?case using "3.IH" "3.prems" by simp
qed

lemma no_commands_flag:
  "list_all (\<lambda>w. token_action py cmds w = None) ws \<Longrightarrow>
   \<not> list_ex (\<lambda>w. token_action py cmds w \<noteq> None) ws"
  by (simp add: list_all_iff list_ex_iff)

lemma process_no_commands:
  assumes "list_all (\<lambda>w. \<not> token_matches py cmds w) (split text)"
  shows "process py cmds text = (False, if split text = [] then [] else [Inject (join (split text))])"
proof -
  from assms have none: "list_all (\<lambda>w. token_action py cmds w = None) (split text)"
    by (simp add: list_all_iff no_match_no_action)
  have "snd (process py cmds text) = (if split text = [] then [] else [Inject (join (split text))])"
    using spec_scan_no_commands [OF none, of "[]"] by (simp add: process_calls)
  moreover have "fst (process py cmds text) = False"
    using no_commands_flag [OF none] by (simp add: process_flag)
  ultimately show ?thesis
    by (simp add: prod_eq_iff)
qed

text \<open>
  C6, amended. For every text none of whose tokens matches a command entry (exactly or
  with similarity at least 0.75), \<open>process\<close> never calls the key function and returns
  False; when the text has a token it calls the inject function exactly once, with the
  tokens of the text joined by single spaces, and when the text has no token it makes no
  call. The injected string is the text itself whenever the text is a non-empty sequence
  of tokens separated by single spaces.
\<close>

theorem process_plain_text:
  assumes "list_all (\<lambda>w. \<not> token_matches py cmds w) (split text)"
  shows "process py cmds text = (False, if split text = [] then [] else [Inject (join (split text))])
     \<and> (\<forall>ws. ws \<noteq> [] \<and> list_all is_token ws \<and> text = join ws
            \<longrightarrow> process py cmds text = (False, [Inject text]))"
proof (intro conjI allI impI)
  show "process py cmds text = (False, if split text = [] then [] else [Inject (join (split text))])"
    using assms by (rule process_no_commands)
next
  fix ws :: "ustr list"
  assume ws: "ws \<noteq> [] \<and> list_all is_token ws \<and> text = join ws"
  then have "split text = ws"
    by (simp add: split_join_tokens)
  with ws process_no_commands [OF assms] show "process py cmds text = (False, [Inject text])"
    by simp
qed

lemma split_hello_world: "split (asc ''hello world'') = [asc ''hello'', asc ''world'']"
  by (simp add: asc_def split_def isspace_def)

lemma split_hello__world: "split (asc ''hello  world'') = [asc ''hello'', asc ''world'']"
  by (simp add: asc_def split_def isspace_def)

text \<open>The theorem at "hello world" with the default table.\<close>

theorem process_plain_text_witness:
  "list_all (\<lambda>w. \<not> token_matches py0 DEFAULT_VOICE_COMMANDS w) (split (asc ''hello world''))
   \<and> list_all is_token [asc ''hello'', asc ''world'']
   \<and> asc ''hello world'' = join [asc ''hello'', asc ''world'']
   \<and> process py0 DEFAULT_VOICE_COMMANDS (asc ''hello world'') = (False, [Inject (asc ''hello world'')])"
proof -
  have h: "list_all (\<lambda>w. \<not> token_matches py0 DEFAULT_VOICE_COMMANDS w) (split (asc ''hello world''))"
    by (simp add: split_hello_world nomatch_hello nomatch_world)
  have t: "list_all is_token [asc ''hello'', asc ''world'']"
    by (simp add: is_token_def asc_def isspace_def)
  have j: "asc ''hello world'' = join [asc ''hello'', asc ''world'']"
    by (simp add: asc_def)
  from process_plain_text [OF h] t j
  have "process py0 DEFAULT_VOICE_COMMANDS (asc ''hello world'') = (False, [Inject (asc ''hello world'')])"
    by blast
  with h t j show ?thesis by blast
qed

text \<open>
  The claim as first stated fails: "hello  world" with two spaces has no command token
  and is injected as "hello world", which is another string; the non-empty text " " has
  no command token and no call is made.
\<close>

theorem process_plain_text_counterexample:
  "list_all (\<lambda>w. \<not> token_matches py0 DEFAULT_VOICE_COMMANDS w) (split (asc ''hello  world''))
   \<and> asc ''hello  world'' \<noteq> []
   \<and> snd (process py0 DEFAULT_VOICE_COMMANDS (asc ''hello  world'')) = [Inject (asc ''hello world'')]
   \<and> asc ''hello world'' \<noteq> asc ''hello  world''
   \<and> asc '' '' \<noteq> []
   \<and> list_all (\<lambda>w. \<not> token_matches py0 DEFAULT_VOICE_COMMANDS w) (split (asc '' ''))
   \<and> snd (process py0 DEFAULT_VOICE_COMMANDS (asc '' '')) = []"
proof -
  have h: "list_all (\<lambda>w. \<not> token_matches py0 DEFAULT_VOICE_COMMANDS w) (split (asc ''hello  world''))"
    by (simp add: split_hello__world nomatch_hello nomatch_world)
  have j: "join [asc ''hello'', asc ''world''] = asc ''hello world''"
    by (simp add: asc_def)
  have s: "split (asc '' '') = []"
    by (simp add: asc_def split_def isspace_def)
  have "snd (process py0 DEFAULT_VOICE_COMMANDS (asc ''hello  world'')) = [Inject (asc ''hello world'')]"
    using process_no_commands [OF h] j by (simp add: split_hello__world)
  moreover have "snd (process py0 DEFAULT_VOICE_COMMANDS (asc '' '')) = []"
    by (simp add: process_def s)
  ultimately show ?thesis
    using h s by (simp add: asc_def)
qed



section \<open>The hallucination filter and Transcriber.transcribe\<close>







subsection \<open>Stripping and removing the sentinel\<close>

lemma strip_where_sides:
  assumes l: "list_all P l" and r: "list_all P r"
  shows "strip_where P (l @ x @ r) = strip_where P x"
proof -
  have 1: "dropWhile P (l @ x @ r) = dropWhile P (x @ r)"
    using l by (simp add: list_all_iff)
  have 2: "dropWhile P (rev r @ z) = dropWhile P z" for z
    using r by (intro dropWhile_append2) (simp add: list_all_iff)
  show ?thesis
  proof (cases "list_all P x")
    case True
    then have a: "dropWhile P (x @ r) = []" and b: "dropWhile P x = []"
      using r by (simp_all add: list_all_iff)
    show ?thesis
      unfolding strip_where_def 1 a b ..
  next
    case False
    then obtain y where "y \<in> set x" "\<not> P y"
      by (auto simp: list_all_iff)
    then have "dropWhile P (x @ r) = dropWhile P x @ r"
      by simp
    then show ?thesis
      unfolding strip_where_def 1 by (simp only: rev_append 2)
  qed
qed

lemma strip_where_decompose:
  "\<exists>l r. list_all P l \<and> list_all P r \<and> s = l @ strip_where P s @ r"
proof -
  define d where "d = dropWhile P s"
  have s: "s = takeWhile P s @ d"
    by (simp add: d_def)
  have "rev (dropWhile P (rev d)) @ rev (takeWhile P (rev d))
          = rev (takeWhile P (rev d) @ dropWhile P (rev d))"
    by (simp only: rev_append)
  also have "\<dots> = d"
    by (simp only: takeWhile_dropWhile_id rev_rev_ident)
  finally have d: "d = strip_where P s @ rev (takeWhile P (rev d))"
    by (simp only: strip_where_def d_def)
  have "list_all P (takeWhile P s)" "list_all P (rev (takeWhile P (rev d)))"
    by (auto simp: list_all_iff dest: set_takeWhileD)
  moreover from s d have "s = takeWhile P s @ strip_where P s @ rev (takeWhile P (rev d))"
    by simp
  ultimately show ?thesis by blast
qed

lemma strip_where_last:
  assumes "strip_where P s \<noteq> []"
  shows "\<not> P (last (strip_where P s))"
proof -
  define e where "e = dropWhile P (rev (dropWhile P s))"
  from assms have "e \<noteq> []"
    by (simp add: strip_where_def e_def)
  then have "\<not> P (hd e)"
    unfolding e_def by (rule hd_dropWhile)
  moreover have "last (strip_where P s) = hd e"
    using \<open>e \<noteq> []\<close> by (simp add: strip_where_def e_def last_rev)
  ultimately show ?thesis by simp
qed

lemma strip_not_blank: "strip s = [] \<or> \<not> list_all isspace (strip s)"
proof (cases "strip s = []")
  case True
  then show ?thesis by simp
next
  case False
  then have "\<not> isspace (last (strip s))"
    unfolding strip_def by (rule strip_where_last)
  moreover from False have "last (strip s) \<in> set (strip s)"
    by simp
  ultimately show ?thesis
    by (auto simp: list_all_iff)
qed

text \<open>
  A pattern none of whose code points matches a code point of \<open>l\<close> (of \<open>r\<close>) is removed
  from behind \<open>l\<close> (from before \<open>r\<close>) as if \<open>l\<close> (\<open>r\<close>) were not there.
\<close>

lemma match_here_Cons:
  "match_here eq (p # ps) (c # cs) \<longleftrightarrow> eq p c \<and> match_here eq ps cs"
  by (auto simp: match_here_def)

lemma remove_all_leading:
  "apart eq pat l \<Longrightarrow> remove_all eq pat (l @ s) = l @ remove_all eq pat s"
proof (induction l)
  case Nil
  then show ?case by simp
next
  case (Cons c l)
  then have "\<not> (pat \<noteq> [] \<and> match_here eq pat ((c # l) @ s))"
    by (cases pat) (auto simp: match_here_Cons apart_def)
  moreover from Cons.prems have "apart eq pat l"
    by (simp add: apart_def list_all_iff)
  ultimately show ?case
    using Cons.IH by auto
qed

lemma match_here_append_apart:
  "apart eq pat r \<Longrightarrow> match_here eq pat (s @ r) \<longleftrightarrow> match_here eq pat s"
proof (induction pat arbitrary: s)
  case Nil
  then show ?case by (simp add: match_here_def)
next
  case (Cons p ps)
  from Cons.prems have ps: "apart eq ps r" and p: "list_all (\<lambda>c. \<not> eq p c) r"
    by (simp_all add: apart_def)
  show ?case
  proof (cases s)
    case Nil
    with p show ?thesis
      by (cases r) (auto simp: match_here_Cons match_here_def)
  next
    case (Cons c cs)
    with Cons.IH [OF ps, of cs] show ?thesis
      by (simp add: match_here_Cons)
  qed
qed

lemma remove_all_trailing:
  "apart eq pat r \<Longrightarrow> remove_all eq pat (s @ r) = remove_all eq pat s @ r"
proof (induction eq pat s rule: remove_all.induct)
  case (1 eq pat)
  then show ?case
    using remove_all_leading [of eq pat r "[]"] by simp
next
  case (2 eq pat c cs)
  note ws = match_here_append_apart [OF "2.prems", of "c # cs"]
  show ?case
  proof (cases "pat \<noteq> [] \<and> match_here eq pat (c # cs)")
    case True
    then have len: "length pat - length (c # cs) = 0"
      by (simp add: match_here_def)
    from True ws have m: "match_here eq pat ((c # cs) @ r)"
      by simp
    have "remove_all eq pat ((c # cs) @ r) = remove_all eq pat (drop (length pat) ((c # cs) @ r))"
      using True m by simp
    also have "\<dots> = remove_all eq pat (drop (length pat) (c # cs) @ r)"
      by (simp only: drop_append len drop_0)
    also have "\<dots> = remove_all eq pat (drop (length pat) (c # cs)) @ r"
      using True "2.IH"(1) "2.prems" by simp
    also have "\<dots> = remove_all eq pat (c # cs) @ r"
      using True by simp
    finally show ?thesis .
  next
    case False
    with ws have "\<not> (pat \<noteq> [] \<and> match_here eq pat ((c # cs) @ r))"
      by simp
    with False "2.IH"(2) "2.prems" show ?thesis
      by auto
  qed
qed

lemma strip_remove_strip:
  assumes "list_all (\<lambda>c. \<not> isspace c) pat"
  shows "strip (remove_all (=) pat (strip s)) = strip (remove_all (=) pat s)"
proof -
  obtain l r where l: "list_all isspace l" and r: "list_all isspace r"
    and s: "s = l @ strip s @ r"
    using strip_where_decompose [of isspace s] unfolding strip_def by blast
  from assms l have pl: "apart (=) pat l"
    by (auto simp: apart_def list_all_iff)
  from assms r have pr: "apart (=) pat r"
    by (auto simp: apart_def list_all_iff)
  have "remove_all (=) pat s = remove_all (=) pat (l @ (strip s @ r))"
    using s by simp
  also have "\<dots> = l @ remove_all (=) pat (strip s) @ r"
    by (simp only: remove_all_leading [OF pl] remove_all_trailing [OF pr])
  finally show ?thesis
    using strip_where_sides [OF l r] by (simp add: strip_def)
qed

lemma blank_audio_no_space: "list_all (\<lambda>c. \<not> isspace c) BLANK_AUDIO"
  by (simp add: BLANK_AUDIO_def asc_def isspace_def)

lemma transcribe_ok:
  "transcribe py True (Inr \<lparr>returncode = 0, stdout = out, stderr = err\<rparr>) d =
     Inr (let t = strip (remove_all (=) BLANK_AUDIO out)
          in if t \<noteq> [] \<and> is_hallucination py t d then [] else t)"
  by (simp add: transcribe_def Let_def strip_remove_strip [OF blank_audio_no_space])

text \<open>
  C4, amended. For every invocation that finds its WAV file and whose subprocess exits
  with status zero, \<open>transcribe\<close> returns a value and raises nothing. The value is the
  standard output with every occurrence of the sentinel removed and the surrounding
  whitespace trimmed, unless that text is not empty and the hallucination filter rejects
  it: then the value is the empty string. An empty result is a value like any other.
  The returned string is never whitespace-only: it is empty or holds a code point that
  is not whitespace.
\<close>

theorem transcribe_success:
  "\<exists>r. transcribe py True (Inr \<lparr>returncode = 0, stdout = out, stderr = err\<rparr>) d = Inr r
       \<and> r = (let t = strip (remove_all (=) BLANK_AUDIO out)
              in if t \<noteq> [] \<and> is_hallucination py t d then [] else t)
       \<and> (r = [] \<or> \<not> list_all isspace r)"
  using strip_not_blank [of "remove_all (=) BLANK_AUDIO out"]
  by (auto simp: transcribe_ok Let_def)

lemma remove_all_absent:
  "\<not> search eq pat s \<Longrightarrow> remove_all eq pat s = s"
  by (induction s) auto

text \<open>
  The claim as first stated fails: at a duration of half a second the five words of
  scenario 5 come out of the subprocess with status zero, hold no sentinel and no
  surrounding whitespace, and \<open>transcribe\<close> returns the empty string, not the text.
\<close>

theorem transcribe_success_counterexample:
  "transcribe py0 True
     (Inr \<lparr>returncode = 0, stdout = odin_dva_tri_chetyre_pyat, stderr = []\<rparr>) (1 / 2) = Inr []
   \<and> strip (remove_all (=) BLANK_AUDIO odin_dva_tri_chetyre_pyat) = odin_dva_tri_chetyre_pyat
   \<and> odin_dva_tri_chetyre_pyat \<noteq> []"
proof -
  have ns: "\<not> search (=) BLANK_AUDIO odin_dva_tri_chetyre_pyat"
    by (simp add: odin_dva_tri_chetyre_pyat_def BLANK_AUDIO_def asc_def match_here_def)
  have st: "strip odin_dva_tri_chetyre_pyat = odin_dva_tri_chetyre_pyat"
    by (simp add: odin_dva_tri_chetyre_pyat_def strip_def strip_where_def isspace_def)
  have t: "strip (remove_all (=) BLANK_AUDIO odin_dva_tri_chetyre_pyat) = odin_dva_tri_chetyre_pyat"
    by (simp add: remove_all_absent [OF ns] st)
  have ne: "odin_dva_tri_chetyre_pyat \<noteq> []"
    by (simp add: odin_dva_tri_chetyre_pyat_def)
  have "length (split odin_dva_tri_chetyre_pyat) = 5"
    by (simp add: odin_dva_tri_chetyre_pyat_def split_def isspace_def)
  then have "is_hallucination py0 odin_dva_tri_chetyre_pyat (1 / 2)"
    by (simp add: is_hallucination_def Let_def MAX_WORDS_PER_SEC_def)
  with t ne show ?thesis
    by (simp add: transcribe_ok Let_def)
qed



section \<open>The WAV writer\<close>

lemma unat_byte_of_int: "unat (word_of_int (int m div 256 ^ i) :: 8 word) = m div 256 ^ i mod 256"
proof -
  have "int m div 256 ^ i = int (m div 256 ^ i)"
    by (simp add: zdiv_int)
  then have "(word_of_int (int m div 256 ^ i) :: 8 word) = word_of_nat (m div 256 ^ i)"
    by simp
  then show ?thesis
    by (simp add: unat_of_nat)
qed

lemma base256_2: "m < 65536 \<Longrightarrow> m mod 256 + 256 * (m div 256 mod 256) = (m :: nat)"
  by simp

lemma base256_4:
  assumes "m < 4294967296"
  shows "m mod 256 + 256 * (m div 256 mod 256 + 256 * (m div 65536 mod 256 + 256 * (m div 16777216 mod 256))) = (m :: nat)"
proof -
  have a: "m div 65536 = m div 256 div 256" and b: "m div 16777216 = m div 256 div 256 div 256"
    by (simp_all add: div_mult2_eq)
  from assms have c: "m div 256 div 256 div 256 mod 256 = m div 256 div 256 div 256"
    by (simp add: div_mult2_eq)
  show ?thesis
    unfolding a b c by (simp only: mod_mult_div_eq)
qed

lemma le_value_4: "m < 4294967296 \<Longrightarrow> le_value (le_bytes 4 (int m)) = m"
proof -
  assume m: "m < 4294967296"
  have "[0..<4] = [0, 1, 2, 3]"
    by (simp add: upt_rec)
  then have "le_value (le_bytes 4 (int m)) =
      m mod 256 + 256 * (m div 256 mod 256 + 256 * (m div 65536 mod 256 + 256 * (m div 16777216 mod 256)))"
    using unat_byte_of_int [of m 0] unat_byte_of_int [of m 1] unat_byte_of_int [of m 2]
      unat_byte_of_int [of m 3]
    by (simp add: le_value_def le_bytes_def)
  with m show ?thesis
    by (simp only: base256_4)
qed

lemma le_value_2: "m < 65536 \<Longrightarrow> le_value (le_bytes 2 (int m)) = m"
proof -
  assume m: "m < 65536"
  have "[0..<2] = [0, 1]"
    by (simp add: upt_rec)
  then have "le_value (le_bytes 2 (int m)) = m mod 256 + 256 * (m div 256 mod 256)"
    using unat_byte_of_int [of m 0] unat_byte_of_int [of m 1]
    by (simp add: le_value_def le_bytes_def)
  with m show ?thesis
    by (simp only: base256_2)
qed

lemma length_le_bytes: "length (le_bytes k n) = k"
  by (simp add: le_bytes_def)


lemma le_bytes_consts:
  "le_bytes 4 16 = [16, 0, 0, 0]" "le_bytes 2 1 = [1, 0]" "le_bytes 4 16000 = [128, 62, 0, 0]"
  "le_bytes 4 32000 = [0, 125, 0, 0]" "le_bytes 2 2 = [2, 0]" "le_bytes 2 16 = [16, 0]"
  by (simp_all add: le_bytes_def upt_rec)

lemma ascii_bytes_length4:
  "length (ascii_bytes ''RIFF'') = 4" "length (ascii_bytes ''WAVE'') = 4"
  "length (ascii_bytes ''fmt '') = 4" "length (ascii_bytes ''data'') = 4"
  by (simp_all add: ascii_bytes_def)

lemma write_wav_ok:
  assumes "length pcm \<le> 4294967259"
  shows "write_wav_default pcm =
     Inr (ascii_bytes ''RIFF'' @ le_bytes 4 (int (36 + length pcm)) @ ascii_bytes ''WAVE''
          @ ascii_bytes ''fmt '' @ [16, 0, 0, 0] @ [1, 0] @ [1, 0] @ [128, 62, 0, 0]
          @ [0, 125, 0, 0] @ [2, 0] @ [16, 0] @ ascii_bytes ''data''
          @ le_bytes 4 (int (length pcm)) @ pcm)"
  using assms
  by (simp add: write_wav_default_def write_wav_def pack_I_def pack_H_def Let_def le_bytes_consts)

lemma write_wav_too_long:
  assumes "4294967260 \<le> length pcm"
  shows "write_wav_default pcm = Inl StructError"
  using assms
  by (simp add: write_wav_default_def write_wav_def pack_I_def Let_def)

text \<open>
  C7, amended. For every PCM byte string of at most \<open>2^32 - 37\<close> bytes, \<open>_write_wav\<close>
  with its defaults writes a file of 44 header bytes followed by the PCM bytes exactly.
  The header is RIFF, the RIFF size \<open>36 + len(pcm)\<close>, WAVE, the fmt chunk of size 16
  declaring PCM format, one channel, 16000 Hz, 32000 bytes per second, block alignment 2
  and 16 bits, then data and the data length, which equals \<open>len(pcm)\<close>.
\<close>

theorem write_wav_file:
  assumes "length pcm \<le> 4294967259"
  shows "\<exists>file. write_wav_default pcm = Inr file
       \<and> length file = 44 + length pcm
       \<and> take 4 file = ascii_bytes ''RIFF''
       \<and> field 4 4 file = 36 + length pcm
       \<and> take 4 (drop 8 file) = ascii_bytes ''WAVE''
       \<and> take 4 (drop 12 file) = ascii_bytes ''fmt ''
       \<and> field 16 4 file = 16
       \<and> field 20 2 file = 1
       \<and> field 22 2 file = 1
       \<and> field 24 4 file = 16000
       \<and> field 28 4 file = 32000
       \<and> field 32 2 file = 2
       \<and> field 34 2 file = 16
       \<and> take 4 (drop 36 file) = ascii_bytes ''data''
       \<and> field 40 4 file = length pcm
       \<and> drop 44 file = pcm"
proof -
  from assms have a: "36 + length pcm < 4294967296" and b: "length pcm < 4294967296"
    by simp_all
  have v: "le_value (le_bytes 4 (36 + int (length pcm))) = 36 + length pcm"
    "le_value (le_bytes 4 (int (length pcm))) = length pcm"
    using le_value_4 [OF a] le_value_4 [OF b] by simp_all
  have c: "le_value [16, 0, 0, 0] = 16" "le_value [1, 0] = 1" "le_value [128, 62, 0, 0] = 16000"
    "le_value [0, 125, 0, 0] = 32000" "le_value [2, 0] = 2" "le_value [16, 0] = 16"
    by (simp_all add: le_value_def)
  show ?thesis
    unfolding write_wav_ok [OF assms]
    by (simp add: field_def length_le_bytes ascii_bytes_length4 v c)
qed

text \<open>The theorem at the four bytes 00 01 00 01.\<close>

theorem write_wav_file_witness:
  "length [0, 1, 0, 1 :: 8 word] \<le> 4294967259
   \<and> write_wav_default [0, 1, 0, 1] =
       Inr ([82, 73, 70, 70, 40, 0, 0, 0, 87, 65, 86, 69, 102, 109, 116, 32, 16, 0, 0, 0, 1, 0, 1, 0,
             128, 62, 0, 0, 0, 125, 0, 0, 2, 0, 16, 0, 100, 97, 116, 97, 4, 0, 0, 0] @ [0, 1, 0, 1])
   \<and> field 40 4 ([82, 73, 70, 70, 40, 0, 0, 0, 87, 65, 86, 69, 102, 109, 116, 32, 16, 0, 0, 0, 1, 0, 1, 0,
             128, 62, 0, 0, 0, 125, 0, 0, 2, 0, 16, 0, 100, 97, 116, 97, 4, 0, 0, 0] @ [0, 1, 0, 1]) = 4"
proof -
  have len: "length [0, 1, 0, 1 :: 8 word] \<le> 4294967259" by simp
  have w: "write_wav_default [0, 1, 0, 1] =
       Inr ([82, 73, 70, 70, 40, 0, 0, 0, 87, 65, 86, 69, 102, 109, 116, 32, 16, 0, 0, 0, 1, 0, 1, 0,
             128, 62, 0, 0, 0, 125, 0, 0, 2, 0, 16, 0, 100, 97, 116, 97, 4, 0, 0, 0] @ [0, 1, 0, 1])"
    by (simp add: write_wav_ok le_bytes_def upt_rec ascii_bytes_def)
  from write_wav_file [OF len] obtain wav
    where f: "write_wav_default [0, 1, 0, 1] = Inr wav" and d: "field 40 4 wav = length [0, 1, 0, 1 :: 8 word]"
    by blast
  from f w have "wav = [82, 73, 70, 70, 40, 0, 0, 0, 87, 65, 86, 69, 102, 109, 116, 32, 16, 0, 0, 0, 1, 0, 1, 0,
             128, 62, 0, 0, 0, 125, 0, 0, 2, 0, 16, 0, 100, 97, 116, 97, 4, 0, 0, 0] @ [0, 1, 0, 1]"
    by simp
  with d len w show ?thesis
    by simp
qed

text \<open>
  The claim as first stated fails: for \<open>2^32 - 36\<close> bytes the RIFF size no longer fits
  its 32-bit field, \<^verbatim>\<open>struct.pack("<I", ...)\<close> raises and no such file is written.
\<close>

theorem write_wav_file_counterexample:
  "write_wav_default (replicate 4294967260 0) = Inl StructError"
  by (rule write_wav_too_long) (simp only: length_replicate order_refl)



section \<open>SimpleVAD\<close>





























section \<open>The coordinator\<close>

subsection \<open>The mute window\<close>








subsection \<open>The effects a handler adds\<close>

lemma calls_of_append: "calls_of (xs @ ys) = calls_of xs @ calls_of ys"
  by (induction xs rule: calls_of.induct) simp_all

lemma calls_of_map_Call: "calls_of (map Call cs) = cs"
  by (induction cs) simp_all

lemma calls_of_restore: "calls_of (restore_effects a) = []"
  by (simp add: restore_effects_def split: option.splits)

lemma new_effects_append: "effects a' = effects a @ es \<Longrightarrow> new_effects a a' = es"
  by (simp add: new_effects_def)

subsection \<open>A worker result with the wake word while listening\<close>

lemma wake_hit_Some:
  "wake_detector a = Some wd \<Longrightarrow> contains_wake_word py wd text \<Longrightarrow> wake_hit py text a = Some wd"
  by (simp add: wake_hit_def)

lemma wake_while_listening:
  assumes "state a = LISTENING" "wake_detector a = Some wd" "text \<noteq> []"
    "contains_wake_word py wd text"
  shows "process_transcribed py cfg now text a =
     a\<lparr>state := DICTATING, silence_timer := None, accumulated_texts := [],
       mute_until := (if end_signal cfg then now + 6 / 10 else mute_until a),
       vad := (if end_signal cfg then map_option vad_reset (vad a) else vad a),
       effects := effects a
         @ (if tray a then [TraySetState DICTATING] else [])
         @ (if end_signal cfg then [PlaySound StartSignal] else [])
         @ (if tray a then [TrayNotify (asc ''whisper.linux'') (asc ''Dictation started'')] else [])\<rparr>"
  using assms
  by (simp add: process_transcribed_def wake_hit_Some cancel_silence_timer_def marshal_set_state_def
      set_state_def play_start_signal_def marshal_notify_def emit_def Let_def)

text \<open>
  C10. When a worker result that holds the wake word arrives in state LISTENING, the
  application becomes the one it was with the state DICTATING, the accumulated texts
  empty, no silence timer, the mute deadline and the VAD reset of the start chime (when
  chimes are enabled) and, added to its effects, the tray's new state, the chime and the
  notification "Dictation started". Nothing else changes. What remains of the text
  after stripping the wake word appears nowhere: no call on the injector is made and
  nothing is appended to the accumulated texts.
\<close>

theorem wake_discards_residue:
  assumes "state a = LISTENING" "wake_detector a = Some wd" "text \<noteq> []"
    "contains_wake_word py wd text"
  shows "process_transcribed py cfg now text a =
     a\<lparr>state := DICTATING, silence_timer := None, accumulated_texts := [],
       mute_until := (if end_signal cfg then now + 6 / 10 else mute_until a),
       vad := (if end_signal cfg then map_option vad_reset (vad a) else vad a),
       effects := effects a
         @ (if tray a then [TraySetState DICTATING] else [])
         @ (if end_signal cfg then [PlaySound StartSignal] else [])
         @ (if tray a then [TrayNotify (asc ''whisper.linux'') (asc ''Dictation started'')] else [])\<rparr>
     \<and> calls_of (new_effects a (process_transcribed py cfg now text a)) = []
     \<and> accumulated_texts (process_transcribed py cfg now text a) = []"
proof -
  note eq = wake_while_listening [OF assms, of cfg now]
  have "new_effects a (process_transcribed py cfg now text a) =
          (if tray a then [TraySetState DICTATING] else [])
          @ (if end_signal cfg then [PlaySound StartSignal] else [])
          @ (if tray a then [TrayNotify (asc ''whisper.linux'') (asc ''Dictation started'')] else [])"
    by (rule new_effects_append) (simp add: eq)
  then have "calls_of (new_effects a (process_transcribed py cfg now text a)) = []"
    by simp
  moreover have "accumulated_texts (process_transcribed py cfg now text a) = []"
    by (simp add: eq)
  ultimately show ?thesis
    using eq by simp
qed


text \<open>The listening session of the scenarios.\<close>

lemma detector_dunyasha: "WakeWordDetector py0 dunyasha = dunyasha_detector"
  by (simp add: WakeWordDetector_def dunyasha_detector_def py0_def dunyasha_def lower_cp_def
      strip_def strip_where_def isspace_def build_variants_def endswith_def Let_def)

lemma listening_session_eq:
  "listening_session out =
     \<lparr>state = LISTENING, tray = True, prev_window_id = Some (asc ''4194311''), audio_stream = True,
      vad = Some (SimpleVAD (listen_config out)), wake_detector = Some dunyasha_detector,
      silence_timer = None, segment_queue = Some [], segment_worker = True,
      accumulated_texts = [], commands = DEFAULT_VOICE_COMMANDS, mute_until = 0,
      effects = [TraySetState LISTENING]\<rparr>"
proof -
  have "strip (asc ''4194311'') = asc ''4194311''"
    by (simp add: strip_def strip_where_def isspace_def asc_def)
  moreover have "asc ''4194311'' \<noteq> []"
    by (simp add: asc_def)
  moreover have "wake_word (listen_config out) = dunyasha"
    by (simp add: listen_config_def dunyasha_def)
  ultimately show ?thesis
    by (simp add: listening_session_def start_listening_def save_active_window_def app_init_def
        set_state_def emit_def detector_dunyasha Let_def)
qed

lemma contains_dunyasha_privet: "contains_wake_word py0 dunyasha_detector dunyasha_privet"
  by (simp add: contains_wake_word_def dunyasha_detector_def py0_def dunyasha_privet_def dunyasha_def
     lower_cp_def strip_def strip_where_def isspace_def match_here_def Let_def)

lemma strip_dunyasha_privet:
  "strip_wake_word py0 dunyasha_detector dunyasha_privet = [1087, 1088, 1080, 1074, 1077, 1090]"
  by (simp add: strip_wake_word_def dunyasha_detector_def py0_def dunyasha_privet_def dunyasha_def
     lower_cp_def strip_def strip_where_def strip_chars_def trail_def collapse_ws_def isspace_def
     match_here_def Let_def)

text \<open>
  The theorem at "dunyasha privet" in the listening session: the residue "privet" is not
  empty, and it is neither injected nor kept.
\<close>

theorem wake_discards_residue_witness:
  "state (listening_session ''stream'') = LISTENING
   \<and> wake_detector (listening_session ''stream'') = Some dunyasha_detector
   \<and> dunyasha_privet \<noteq> []
   \<and> contains_wake_word py0 dunyasha_detector dunyasha_privet
   \<and> strip_wake_word py0 dunyasha_detector dunyasha_privet = [1087, 1088, 1080, 1074, 1077, 1090]
   \<and> state (process_transcribed py0 (listen_config ''stream'') 100 dunyasha_privet
               (listening_session ''stream'')) = DICTATING
   \<and> accumulated_texts (process_transcribed py0 (listen_config ''stream'') 100 dunyasha_privet
               (listening_session ''stream'')) = []
   \<and> new_effects (listening_session ''stream'')
        (process_transcribed py0 (listen_config ''stream'') 100 dunyasha_privet
               (listening_session ''stream''))
       = [TraySetState DICTATING, PlaySound StartSignal,
          TrayNotify (asc ''whisper.linux'') (asc ''Dictation started'')]"
proof -
  have s: "state (listening_session ''stream'') = LISTENING"
    and w: "wake_detector (listening_session ''stream'') = Some dunyasha_detector"
    and t: "tray (listening_session ''stream'')"
    by (simp_all add: listening_session_eq)
  have n: "dunyasha_privet \<noteq> []"
    by (simp add: dunyasha_privet_def dunyasha_def)
  have e: "end_signal (listen_config ''stream'')"
    by (simp add: listen_config_def default_config_def)
  from wake_discards_residue [OF s w n contains_dunyasha_privet, of "listen_config ''stream''" 100]
  have eq: "process_transcribed py0 (listen_config ''stream'') 100 dunyasha_privet (listening_session ''stream'')
      = (listening_session ''stream'')\<lparr>state := DICTATING, silence_timer := None, accumulated_texts := [],
          mute_until := 100 + 6 / 10,
          vad := map_option vad_reset (vad (listening_session ''stream'')),
          effects := effects (listening_session ''stream'')
            @ [TraySetState DICTATING, PlaySound StartSignal,
               TrayNotify (asc ''whisper.linux'') (asc ''Dictation started'')]\<rparr>"
    using t e by simp
  have "new_effects (listening_session ''stream'')
        (process_transcribed py0 (listen_config ''stream'') 100 dunyasha_privet
               (listening_session ''stream''))
       = [TraySetState DICTATING, PlaySound StartSignal,
          TrayNotify (asc ''whisper.linux'') (asc ''Dictation started'')]"
    by (rule new_effects_append) (simp add: eq)
  with s w n contains_dunyasha_privet strip_dunyasha_privet show ?thesis
    by (simp add: eq)
qed


end
